theory Spec2Isabelle
  imports Complex_Main "HOL-Library.Sublist"
begin

section \<open>Common data\<close>

text \<open>
  Python floats are modelled as exact reals: every statement below is about the
  arithmetic the code writes down, not about IEEE rounding.  Python exceptions are values
  of the type \<open>error\<close>; a function that may raise returns \<open>error + 'a\<close>.
\<close>

datatype error = KeyError | ZeroDivisionError | IndexError | ValueError | OtherError

section \<open>The scoring script \<open>score.py\<close> (lab01.3, deployment notebook)\<close>

text \<open>
  The module-level globals \<open>running_avg\<close> and \<open>curr_n\<close> are the service state; every
  function that touches them takes the state and returns the new one.
\<close>

record score_state =
  running_avg :: real
  curr_n :: int

text \<open>
  \<open>json.loads(raw_data)\<close> is a dictionary from keys to numbers; looking up a key that
  is absent raises \<open>KeyError\<close>.
\<close>

type_synonym payload = "string \<rightharpoonup> real"

definition init :: score_state where
  "init = \<lparr>running_avg = 0, curr_n = 0\<rparr>"

text \<open>
  The first \<open>score.py\<close>: \<open>n_arg = 5\<close> is a constant of the script.  The increment of
  \<open>curr_n\<close> happens before the division, so it survives a \<open>ZeroDivisionError\<close>.
\<close>

definition run :: "payload \<Rightarrow> score_state \<Rightarrow> (error + real) \<times> score_state" where
  "run raw_data st =
     (case raw_data ''value'' of
        None \<Rightarrow> (Inl KeyError, st)
      | Some v \<Rightarrow>
          let n_arg = 5;
              st1 = st\<lparr>curr_n := curr_n st + 1\<rparr>;
              n = min (real_of_int (curr_n st1)) n_arg
          in if n = 0 then (Inl ZeroDivisionError, st1)
             else let st2 = st1\<lparr>running_avg := running_avg st1 + (v - running_avg st1) / n\<rparr>
                  in (Inr (running_avg st2), st2))"

text \<open>
  The modified \<open>score.py\<close> (the cell after ``Modifying the container''): the only change
  is \<open>n_arg = json.loads(raw_data)['n']\<close>.
\<close>

definition run_modified :: "payload \<Rightarrow> score_state \<Rightarrow> (error + real) \<times> score_state" where
  "run_modified raw_data st =
     (case raw_data ''value'' of
        None \<Rightarrow> (Inl KeyError, st)
      | Some v \<Rightarrow>
         (case raw_data ''n'' of
            None \<Rightarrow> (Inl KeyError, st)
          | Some n_arg \<Rightarrow>
              let st1 = st\<lparr>curr_n := curr_n st + 1\<rparr>;
                  n = min (real_of_int (curr_n st1)) n_arg
              in if n = 0 then (Inl ZeroDivisionError, st1)
                 else let st2 = st1\<lparr>running_avg := running_avg st1 + (v - running_avg st1) / n\<rparr>
                      in (Inr (running_avg st2), st2)))"

text \<open>
  The client loop of the notebook (\<open>for value in values: ... running_avgs.append(result)\<close>):
  one request per value, the responses collected in order.
\<close>

fun run_calls :: "(payload \<Rightarrow> score_state \<Rightarrow> (error + real) \<times> score_state) \<Rightarrow>
    payload list \<Rightarrow> score_state \<Rightarrow> (error + real) list \<times> score_state" where
  "run_calls f [] st = ([], st)"
| "run_calls f (p # ps) st =
     (case f p st of (r, st') \<Rightarrow>
        (case run_calls f ps st' of (rs, st'') \<Rightarrow> (r # rs, st'')))"

definition value_only :: "real \<Rightarrow> payload" where
  "value_only v = [''value'' \<mapsto> v]"

definition value_and_n :: "real \<Rightarrow> real \<Rightarrow> payload" where
  "value_and_n v k = [''value'' \<mapsto> v, ''n'' \<mapsto> k]"


text \<open>
  The scoring step as the specification words it: \<open>n\<close> is an optional field of the
  request with default 5, \<open>n_eff = min(curr_n + 1, n)\<close>,
  \<open>avg := avg + (value - avg) / n_eff\<close>, \<open>curr_n := curr_n + 1\<close>, and the new
  average is the response.  It is compared with \<open>run\<close> and \<open>run_modified\<close> below.
\<close>

definition score_spec :: "real \<Rightarrow> real option \<Rightarrow> score_state \<Rightarrow> real \<times> score_state" where
  "score_spec v n_opt st =
     (let n = (case n_opt of None \<Rightarrow> 5 | Some k \<Rightarrow> k);
          n_eff = min (real_of_int (curr_n st + 1)) n;
          avg = running_avg st + (v - running_avg st) / n_eff
      in (avg, \<lparr>running_avg = avg, curr_n = curr_n st + 1\<rparr>))"

section \<open>Windowed anomaly detection (lab01.2, model development notebook)\<close>

text \<open>
  A data frame with the columns \<open>timestamp\<close> and \<open>value\<close> (or \<open>anoms\<close>) is the list
  of its rows.  \<open>iloc\<close> is positional slicing \<open>df.iloc[start:stop, :]\<close> with Python's
  rules: a negative bound counts from the end, bounds are clipped to the frame, and the
  row at \<open>stop\<close> is not part of the slice.
\<close>

type_synonym timestamp = int
type_synonym frame = "(timestamp \<times> real) list"

definition iloc :: "int \<Rightarrow> int \<Rightarrow> 'a list \<Rightarrow> 'a list" where
  "iloc start stop rows =
     (let n = int (length rows);
          clip = (\<lambda>i. if i < 0 then max 0 (i + n) else min i n)
      in take (nat (clip stop - clip start)) (drop (nat (clip start)) rows))"

text \<open>
  The first two statements shared by \<open>detect_ts_online\<close> and \<open>eval\<close>:
  \<open>start_index = max(0, stop - window_size)\<close> and
  \<open>df_win = df_smooth.iloc[start_index:stop, :]\<close>.
\<close>

definition df_win :: "frame \<Rightarrow> int \<Rightarrow> int \<Rightarrow> frame" where
  "df_win df_smooth window_size stop =
     (let start_index = max 0 (stop - window_size)
      in iloc start_index stop df_smooth)"

text \<open>
  \<open>detect_ts\<close> (pyculiarity) is an external library: it is a parameter, a function
  from the window to either an exception or the frame \<open>results['anoms']\<close>.  The two
  readings of \<open>time.time()\<close> are a parameter as well: \<open>fst clock\<close> is the reading before
  the call of the oracle, \<open>snd clock\<close> the time at which the call ends.
  \<open>df_win['timestamp'].tail(1).values[0]\<close> raises \<open>IndexError\<close> on an empty window.
\<close>

definition detect_ts_online ::
    "(frame \<Rightarrow> error + frame) \<Rightarrow> real \<times> real \<Rightarrow> frame \<Rightarrow> int \<Rightarrow> int \<Rightarrow> error + bool \<times> real" where
  "detect_ts_online detect_ts clock df_smooth window_size stop =
     (let win = df_win df_smooth window_size stop;
          start_time = fst clock
      in case detect_ts win of
           Inl e \<Rightarrow> Inl e
         | Inr anoms \<Rightarrow>
             let run_time = snd clock - start_time
             in if length anoms > 0 then
                  (if win = [] then Inl IndexError
                   else if fst (last win) = fst (last anoms) then Inr (True, run_time)
                   else Inr (False, run_time))
                else Inr (False, run_time))"

text \<open>
  \<open>eval\<close> of the second copy of the notebook wraps the same statements in
  \<open>try: ... except ValueError: pass\<close>, with \<open>run_time = -1\<close> set before the \<open>try\<close>.
\<close>

definition eval ::
    "(frame \<Rightarrow> error + frame) \<Rightarrow> real \<times> real \<Rightarrow> frame \<Rightarrow> int \<Rightarrow> int \<Rightarrow> error + bool \<times> real" where
  "eval detect_ts clock df_smooth window_size stop =
     (let win = df_win df_smooth window_size stop;
          start_time = fst clock
      in case detect_ts win of
           Inl ValueError \<Rightarrow> Inr (False, - 1)
         | Inl e \<Rightarrow> Inl e
         | Inr anoms \<Rightarrow>
             let run_time = snd clock - start_time
             in if length anoms > 0 then
                  (if win = [] then Inl IndexError
                   else if fst (last win) = fst (last anoms) then Inr (True, run_time)
                   else Inr (False, run_time))
                else Inr (False, run_time))"

subsection \<open>The evaluation harness \<open>sample_run\<close>\<close>

text \<open>
  \<open>test_case = df_smooth[df_smooth['timestamp'] == random_timestamps[i]]\<close> followed by
  \<open>test_case.index.values[0]\<close>: the position of the first row with the candidate
  timestamp (\<open>df_smooth\<close> is built with a fresh range index), \<open>IndexError\<close> if there is
  none.
\<close>

fun test_case_index :: "frame \<Rightarrow> timestamp \<Rightarrow> error + int" where
  "test_case_index [] t = Inl IndexError"
| "test_case_index (row # rows) t =
     (if fst row = t then Inr 0
      else case test_case_index rows t of Inl e \<Rightarrow> Inl e | Inr i \<Rightarrow> Inr (i + 1))"

text \<open>The online half of one trial: locate the candidate, then call the detector.\<close>

definition trial_online ::
    "(frame \<Rightarrow> error + frame) \<Rightarrow> real \<times> real \<Rightarrow> frame \<Rightarrow> int \<Rightarrow> timestamp \<Rightarrow> error + bool \<times> real" where
  "trial_online detect_ts clock df_smooth window_size t =
     (case test_case_index df_smooth t of
        Inl e \<Rightarrow> Inl e
      | Inr i \<Rightarrow> detect_ts_online detect_ts clock df_smooth window_size i)"

text \<open>
  The anomaly-biased branch of a trial.  \<open>np.random.shuffle\<close> is a parameter: \<open>shuffle k\<close>
  is the rearrangement made by the \<open>k\<close>-th call.  The branch either leaves \<open>sample_run\<close>
  with the pair \<open>(0.0, 9999.0)\<close> or goes on with a candidate timestamp;
  \<open>anoms_timestamps[0]\<close> and \<open>timestamps[0]\<close> raise \<open>IndexError\<close> on an empty array.
\<close>

datatype branch_result = Return "real \<times> real" | Candidate timestamp

function resample ::
    "(nat \<Rightarrow> timestamp list \<Rightarrow> timestamp list) \<Rightarrow> timestamp list \<Rightarrow> timestamp list \<Rightarrow> nat
      \<Rightarrow> error + branch_result" where
  "resample shuffle timestamps anoms_timestamps counter =
     (case anoms_timestamps of
        [] \<Rightarrow> Inl IndexError
      | a # _ \<Rightarrow>
         (case timestamps of
            [] \<Rightarrow> Inl IndexError
          | t0 # _ \<Rightarrow>
              if a < t0 then
                (if counter > 100 then Inr (Return (0, 9999))
                 else resample shuffle timestamps (shuffle (Suc counter) anoms_timestamps)
                        (counter + 1))
              else Inr (Candidate a)))"
  by pat_completeness auto
termination
  by (relation "measure (\<lambda>(shuffle, timestamps, anoms_timestamps, counter). 101 - counter)") auto

definition anomaly_branch ::
    "(nat \<Rightarrow> timestamp list \<Rightarrow> timestamp list) \<Rightarrow> timestamp list \<Rightarrow> timestamp list
      \<Rightarrow> error + branch_result" where
  "anomaly_branch shuffle timestamps anoms_datetimes =
     resample shuffle timestamps (shuffle 0 anoms_datetimes) 0"

subsection \<open>Running averages: online and in batch\<close>

text \<open>
  Modelled from the spec: the two assignments of \<open>run_avg\<close> that the notebook leaves
  open.  The notebook cell is the exercise template
  (\<open>rm_o[0] = -1 # enter your solution here\<close>, and the same in the loop); the solution
  it points to, \<open>solutions/running_avg.py\<close>, is not among the repository's sources here.  The
  frame of the function is the template's: an output array of the input's shape, its
  first cell set before the loop, then one cell per position \<open>r\<close> from 1 to the end
  of the series (the template writes \<open>range(1, len(rm))\<close>, \<open>rm\<close> being the batch
  series over the same data) with \<open>curr_com = float(min(com, r))\<close>; \<open>com\<close> is the
  second argument, as \<open>sample_run\<close> calls it.  The two right-hand sides are the
  specification's
  ``for the first observation, \<open>avg := value\<close>'' and
  ``\<open>avg := avg + (value - avg) / (effective_c + 1)\<close>''.  Writing cell 0 of an empty
  array raises \<open>IndexError\<close>.
\<close>

definition run_avg :: "real list \<Rightarrow> real \<Rightarrow> error + real list" where
  \<comment> \<open>Modelled from the spec: the right-hand sides of the two assignments to \<open>rm_o\<close>.\<close>
  "run_avg ts com =
     (if ts = [] then Inl IndexError
      else Inr (fold (\<lambda>r rm_o.
                   let curr_com = min com (real r)
                   in rm_o[r := rm_o ! (r - 1) + (ts ! r - rm_o ! (r - 1)) / (curr_com + 1)])
                 [1..<length ts]
                 ((replicate (length ts) 0)[0 := ts ! 0])))"

text \<open>
  The batch reference \<open>series.ewm(com=com).mean()\<close> is a call into pandas.  Its
  documented value (default \<open>adjust=True\<close>, no missing data) at position \<open>t\<close> is the
  weighted mean of \<open>x\<^sub>t, x\<^sub>t\<^sub>-\<^sub>1, ..., x\<^sub>0\<close> with weights \<open>(1 - \<alpha>)\<^sup>i\<close>,
  \<open>\<alpha> = 1 / (1 + com)\<close>.
\<close>

definition ewm_num :: "real \<Rightarrow> real list \<Rightarrow> nat \<Rightarrow> real" where
  "ewm_num b xs t = (\<Sum>i\<leftarrow>[0..<Suc t]. b ^ i * xs ! (t - i))"

definition ewm_den :: "real \<Rightarrow> nat \<Rightarrow> real" where
  "ewm_den b t = (\<Sum>i\<leftarrow>[0..<Suc t]. b ^ i)"

definition ewm_mean :: "real \<Rightarrow> real list \<Rightarrow> real list" where
  "ewm_mean com xs =
     (let alpha = 1 / (1 + com)
      in map (\<lambda>t. ewm_num (1 - alpha) xs t / ewm_den (1 - alpha) t) [0..<length xs])"

text \<open>
  The running average as a recurrence over the position, used to reason about the
  array that \<open>run_avg\<close> fills.
\<close>

fun online :: "real \<Rightarrow> real list \<Rightarrow> nat \<Rightarrow> real" where
  "online com ts 0 = ts ! 0"
| "online com ts (Suc r) =
     online com ts r + (ts ! Suc r - online com ts r) / (min com (real (Suc r)) + 1)"


section \<open>Properties of the scoring script\<close>

lemma run_calls_append:
  "run_calls f (ps @ qs) st =
     (case run_calls f ps st of (rs, st') \<Rightarrow>
        (case run_calls f qs st' of (rs', st'') \<Rightarrow> (rs @ rs', st'')))"
  by (induction ps arbitrary: st) (auto split: prod.splits)

lemma run_step:
  assumes "raw_data ''value'' = Some v" and "0 \<le> curr_n st"
  shows "run raw_data st =
           (Inr (running_avg st + (v - running_avg st) / min (real_of_int (curr_n st + 1)) 5),
            \<lparr>running_avg = running_avg st + (v - running_avg st) / min (real_of_int (curr_n st + 1)) 5,
             curr_n = curr_n st + 1\<rparr>)"
  using assms by (simp add: run_def Let_def min_def)

lemma run_modified_step:
  assumes "raw_data ''value'' = Some v" and "raw_data ''n'' = Some k"
    and "min (real_of_int (curr_n st + 1)) k \<noteq> 0"
  shows "run_modified raw_data st =
           (Inr (running_avg st + (v - running_avg st) / min (real_of_int (curr_n st + 1)) k),
            \<lparr>running_avg = running_avg st + (v - running_avg st) / min (real_of_int (curr_n st + 1)) k,
             curr_n = curr_n st + 1\<rparr>)"
  using assms by (simp add: run_modified_def Let_def)

lemma mean_step:
  fixes S v k :: real
  assumes "0 < k"
  shows "S / k + (v - S / k) / (k + 1) = (S + v) / (k + 1)"
proof -
  have "(S / k + (v - S / k) / (k + 1)) * (k + 1) = S / k * (k + 1) + (v - S / k)"
    using assms by (simp add: distrib_right)
  also have "\<dots> = S + v"
    using assms by (simp add: field_simps)
  finally show ?thesis
    using assms by (simp add: eq_divide_eq)
qed

lemma mean_snoc:
  assumes "ws \<noteq> []"
  shows "sum_list ws / real (length ws) + (v - sum_list ws / real (length ws)) / (real (length ws) + 1)
         = (sum_list ws + v) / (real (length ws) + 1)"
  using assms by (intro mean_step) simp

text \<open>
  While at most five values have arrived, the state holds their arithmetic mean and
  their number, and the last response is that mean.
\<close>

lemma run_calls_mean:
  assumes "vs \<noteq> []" and "length vs \<le> 5"
  shows "\<exists>outs. run_calls run (map value_only vs) \<lparr>running_avg = a, curr_n = 0\<rparr> =
           (outs @ [Inr (sum_list vs / real (length vs))],
            \<lparr>running_avg = sum_list vs / real (length vs), curr_n = int (length vs)\<rparr>)
          \<and> length outs + 1 = length vs"
  using assms
proof (induction vs rule: rev_induct)
  case Nil
  then show ?case by simp
next
  case (snoc v ws)
  show ?case
  proof (cases "ws = []")
    case True
    then show ?thesis
      by (simp add: run_step value_only_def)
  next
    case False
    with snoc obtain outs where
      outs: "run_calls run (map value_only ws) \<lparr>running_avg = a, curr_n = 0\<rparr> =
           (outs @ [Inr (sum_list ws / real (length ws))],
            \<lparr>running_avg = sum_list ws / real (length ws), curr_n = int (length ws)\<rparr>)"
      and len: "length outs + 1 = length ws"
      by auto
    have small: "min (real (length ws) + 1) 5 = real (length ws) + 1"
      using snoc.prems by (simp add: min_def)
    have "run (value_only v) \<lparr>running_avg = sum_list ws / real (length ws), curr_n = int (length ws)\<rparr>
          = (Inr ((sum_list ws + v) / (real (length ws) + 1)),
             \<lparr>running_avg = (sum_list ws + v) / (real (length ws) + 1), curr_n = int (length ws) + 1\<rparr>)"
      by (simp add: run_step [where v = v] value_only_def small mean_snoc [OF False])
    then show ?thesis
      using outs len by (simp add: run_calls_append add.commute)
  qed
qed

text \<open>
  C2 (scenario A), as the specification states it: the five responses to
  \<open>[1.0, 2.0, 3.0, 2.0, 1.0]\<close> are \<open>1.0, 1.5, 2.0, 1.875, 1.7\<close>.  They are not: the
  fourth and fifth responses of the script differ from the stated ones.
\<close>

theorem scenario_A_stated_values_refuted:
  "fst (run_calls run (map value_only [1, 2, 3, 2, 1]) init)
     \<noteq> [Inr 1, Inr 1.5, Inr 2, Inr 1.875, Inr 1.7]"
  by (simp add: run_def init_def value_only_def Let_def)

text \<open>
  C2 (scenario A), amended: after \<open>init\<close>, the five calls of \<open>run\<close> with the values
  \<open>[1.0, 2.0, 3.0, 2.0, 1.0]\<close> return \<open>1.0, 1.5, 2.0, 2.0, 1.8\<close>, the arithmetic means
  of the values received so far; the modified script returns the same when every request
  carries \<open>n = 5\<close>.
\<close>

theorem scenario_A_running_means:
  "fst (run_calls run (map value_only [1, 2, 3, 2, 1]) init)
     = [Inr 1, Inr 1.5, Inr 2, Inr 2, Inr 1.8]
   \<and> fst (run_calls run_modified (map (\<lambda>v. value_and_n v 5) [1, 2, 3, 2, 1]) init)
     = [Inr 1, Inr 1.5, Inr 2, Inr 2, Inr 1.8]"
  by (simp add: run_def run_modified_def init_def value_only_def value_and_n_def Let_def)

text \<open>
  C6, as the specification states it: every call takes an optional \<open>n\<close> with default 5
  and performs the step \<open>score_spec\<close>.  Neither script does.  After one request the
  first script answers a request \<open>{value: 3, n: 1}\<close> with 2 where the stated step gives
  3, because it never reads \<open>n\<close>; the modified script answers a request without \<open>n\<close>
  with \<open>KeyError\<close> where the stated step gives 3.
\<close>

theorem optional_n_refuted:
  "fst (run (value_and_n 3 1) (snd (run (value_only 1) init))) = Inr 2
   \<and> fst (score_spec 3 (Some 1) (snd (run (value_only 1) init))) = 3
   \<and> fst (run_modified (value_only 3) init) = Inl KeyError
   \<and> fst (score_spec 3 None init) = 3"
  by (simp add: run_def run_modified_def score_spec_def init_def value_only_def
      value_and_n_def Let_def)

text \<open>
  C6, amended: a call of the first script with a request that has a \<open>value\<close> performs
  exactly one truncated Welford step with \<open>n = 5\<close>, whatever else the request holds
  (\<open>n_eff = min(curr_n + 1, 5)\<close>, \<open>avg := avg + (value - avg) / n_eff\<close>,
  \<open>curr_n := curr_n + 1\<close>) and returns the new average; a call of the modified script
  performs the same step with the \<open>n\<close> of the request, which is required there: a
  request without \<open>n\<close> raises \<open>KeyError\<close> and leaves the state as it was.  The counter
  is non-negative (it starts at 0 and only grows), and in the modified script the
  divisor \<open>min(curr_n + 1, n)\<close> must not be zero.
\<close>

theorem run_truncated_welford_step:
  "(raw_data ''value'' = Some v \<and> 0 \<le> curr_n st \<longrightarrow>
      run raw_data st =
        (let n_eff = min (real_of_int (curr_n st + 1)) 5;
             avg = running_avg st + (v - running_avg st) / n_eff
         in (Inr avg, \<lparr>running_avg = avg, curr_n = curr_n st + 1\<rparr>)))
   \<and> (raw_data ''value'' = Some v \<and> raw_data ''n'' = Some k
        \<and> min (real_of_int (curr_n st + 1)) k \<noteq> 0 \<longrightarrow>
      run_modified raw_data st =
        (let n_eff = min (real_of_int (curr_n st + 1)) k;
             avg = running_avg st + (v - running_avg st) / n_eff
         in (Inr avg, \<lparr>running_avg = avg, curr_n = curr_n st + 1\<rparr>)))
   \<and> (raw_data' ''n'' = None \<longrightarrow> run_modified raw_data' st = (Inl KeyError, st))"
proof (intro conjI impI)
  assume "raw_data ''value'' = Some v \<and> 0 \<le> curr_n st"
  then show "run raw_data st =
        (let n_eff = min (real_of_int (curr_n st + 1)) 5;
             avg = running_avg st + (v - running_avg st) / n_eff
         in (Inr avg, \<lparr>running_avg = avg, curr_n = curr_n st + 1\<rparr>))"
    by (simp add: run_step [where v = v] Let_def)
next
  assume "raw_data ''value'' = Some v \<and> raw_data ''n'' = Some k
        \<and> min (real_of_int (curr_n st + 1)) k \<noteq> 0"
  then show "run_modified raw_data st =
        (let n_eff = min (real_of_int (curr_n st + 1)) k;
             avg = running_avg st + (v - running_avg st) / n_eff
         in (Inr avg, \<lparr>running_avg = avg, curr_n = curr_n st + 1\<rparr>))"
    by (simp add: run_modified_step [where v = v and k = k] Let_def)
next
  assume "raw_data' ''n'' = None"
  then show "run_modified raw_data' st = (Inl KeyError, st)"
    by (simp add: run_modified_def split: option.splits)
qed

theorem run_truncated_welford_step_witness:
  "run (value_and_n 3 2) \<lparr>running_avg = 1, curr_n = 1\<rparr>
     = (Inr 2, \<lparr>running_avg = 2, curr_n = 2\<rparr>)
   \<and> run_modified (value_and_n 4 3) \<lparr>running_avg = 1, curr_n = 5\<rparr>
     = (Inr 2, \<lparr>running_avg = 2, curr_n = 6\<rparr>)
   \<and> run_modified (value_only 3) \<lparr>running_avg = 1, curr_n = 1\<rparr>
     = (Inl KeyError, \<lparr>running_avg = 1, curr_n = 1\<rparr>)"
  using run_truncated_welford_step
          [of "value_and_n 3 2" 3 "\<lparr>running_avg = 1, curr_n = 1\<rparr>" 2 "value_only 3"]
        run_truncated_welford_step
          [of "value_and_n 4 3" 4 "\<lparr>running_avg = 1, curr_n = 5\<rparr>" 3 "value_only 3"]
  by (simp add: value_and_n_def value_only_def Let_def)

text \<open>
  C10: for every \<open>k\<close> with \<open>1 \<le> k \<le> 5\<close> (the \<open>n\<close> of the script), after \<open>k\<close> calls of
  \<open>run\<close> with the values \<open>v\<^sub>1, ..., v\<^sub>k\<close>, starting with the counter at 0 and any
  initial \<open>running_avg\<close>, the value returned last is the arithmetic mean
  \<open>(v\<^sub>1 + ... + v\<^sub>k) / k\<close>; with \<open>k = 1\<close> this is \<open>v\<^sub>1\<close> itself.
\<close>

theorem first_five_responses_are_means:
  assumes "vs \<noteq> []" and "length vs \<le> 5"
  shows "length (fst (run_calls run (map value_only vs) \<lparr>running_avg = a, curr_n = 0\<rparr>))
           = length vs
       \<and> last (fst (run_calls run (map value_only vs) \<lparr>running_avg = a, curr_n = 0\<rparr>))
           = Inr (sum_list vs / real (length vs))"
proof -
  from run_calls_mean [OF assms, of a] obtain outs where
    "run_calls run (map value_only vs) \<lparr>running_avg = a, curr_n = 0\<rparr> =
           (outs @ [Inr (sum_list vs / real (length vs))],
            \<lparr>running_avg = sum_list vs / real (length vs), curr_n = int (length vs)\<rparr>)"
    and "length outs + 1 = length vs" by blast
  then show ?thesis by simp
qed

theorem first_five_responses_are_means_witness:
  "[4, 8, 6] \<noteq> ([] :: real list) \<and> length [4, 8, 6 :: real] \<le> 5
   \<and> length (fst (run_calls run (map value_only [4, 8, 6]) \<lparr>running_avg = 7, curr_n = 0\<rparr>)) = 3
   \<and> last (fst (run_calls run (map value_only [4, 8, 6]) \<lparr>running_avg = 7, curr_n = 0\<rparr>))
       = Inr 6"
  using first_five_responses_are_means [of "[4, 8, 6]" 7] by simp


section \<open>Properties of the window handed to the oracle\<close>

lemma iloc_nonneg:
  assumes "0 \<le> start" and "0 \<le> stop"
  shows "iloc start stop rows =
           take (nat (min stop (int (length rows)) - min start (int (length rows))))
             (drop (nat (min start (int (length rows)))) rows)"
  using assms by (simp add: iloc_def Let_def)

lemma iloc_inside:
  assumes "0 \<le> start" and "start \<le> stop" and "stop \<le> int (length rows)"
  shows "iloc start stop rows = drop (nat start) (take (nat stop) rows)"
proof -
  have "iloc start stop rows = take (nat (stop - start)) (drop (nat start) rows)"
    using assms by (simp add: iloc_nonneg min_def)
  also have "\<dots> = drop (nat start) (take (nat start + nat (stop - start)) rows)"
    by (simp add: take_drop add.commute)
  also have "nat start + nat (stop - start) = nat stop"
    using assms by simp
  finally show ?thesis .
qed

lemma length_iloc_le:
  assumes "0 \<le> start" and "0 \<le> stop"
  shows "int (length (iloc start stop rows)) \<le> max 0 (stop - start)"
proof -
  have "length (iloc start stop rows)
          \<le> nat (min stop (int (length rows)) - min start (int (length rows)))"
    using assms by (simp add: iloc_nonneg)
  then show ?thesis by linarith
qed

text \<open>
  C9: with a window size \<open>W \<ge> 0\<close> and an evaluation point \<open>stop \<ge> 0\<close> (a row
  position), the window handed to the oracle has at most \<open>W\<close> rows; when more than \<open>W\<close>
  observations precede the evaluation point (\<open>stop > W\<close>, the frame holding at least
  \<open>stop\<close> rows), it has exactly \<open>W\<close> rows, and they are the last \<open>W\<close> of the \<open>stop\<close>
  observations before the evaluation point, in the order of the frame.
\<close>

theorem window_bounded_and_trailing:
  assumes "0 \<le> window_size" and "0 \<le> stop"
  shows "int (length (df_win df_smooth window_size stop)) \<le> window_size
       \<and> (window_size < stop \<and> stop \<le> int (length df_smooth) \<longrightarrow>
            int (length (df_win df_smooth window_size stop)) = window_size
          \<and> df_win df_smooth window_size stop
              = drop (nat (stop - window_size)) (take (nat stop) df_smooth))"
proof (intro conjI impI)
  have "int (length (df_win df_smooth window_size stop))
          \<le> max 0 (stop - max 0 (stop - window_size))"
    unfolding df_win_def Let_def using assms by (intro length_iloc_le) simp_all
  also have "\<dots> \<le> window_size"
    using assms by (simp add: max_def)
  finally show "int (length (df_win df_smooth window_size stop)) \<le> window_size" .
next
  assume h: "window_size < stop \<and> stop \<le> int (length df_smooth)"
  then have eq: "df_win df_smooth window_size stop
              = drop (nat (stop - window_size)) (take (nat stop) df_smooth)"
    unfolding df_win_def Let_def using assms by (simp add: iloc_inside max_def)
  show "df_win df_smooth window_size stop
              = drop (nat (stop - window_size)) (take (nat stop) df_smooth)" by (rule eq)
  have "nat stop \<le> length df_smooth"
    using h by linarith
  then have "length (df_win df_smooth window_size stop) = nat stop - nat (stop - window_size)"
    by (simp add: eq min_absorb2)
  then show "int (length (df_win df_smooth window_size stop)) = window_size"
    using h assms by linarith
qed

theorem window_bounded_and_trailing_witness:
  "(0::int) \<le> 2 \<and> (0::int) \<le> 4 \<and> (2::int) < 4
   \<and> 4 \<le> int (length [(0, 1), (1, 2), (2, 3), (3, 4), (4, 5 :: real)])
   \<and> int (length (df_win [(0, 1), (1, 2), (2, 3), (3, 4), (4, 5)] 2 4)) = 2
   \<and> df_win [(0, 1), (1, 2), (2, 3), (3, 4), (4, 5)] 2 4 = [(2, 3), (3, 4)]"
  using window_bounded_and_trailing [of 2 4 "[(0, 1), (1, 2), (2, 3), (3, 4), (4, 5)]"]
  by simp

text \<open>
  The last row of a non-empty window is the row before \<open>stop\<close>: the slice
  \<open>iloc[start_index:stop]\<close> ends one row short of the evaluation point.
\<close>

lemma df_win_last_is_row_before_stop:
  assumes "0 < window_size" and "0 < stop" and "stop \<le> int (length df_smooth)"
  shows "last (df_win df_smooth window_size stop) = df_smooth ! nat (stop - 1)"
proof -
  have eq: "df_win df_smooth window_size stop
          = drop (nat (max 0 (stop - window_size))) (take (nat stop) df_smooth)"
    unfolding df_win_def Let_def using assms by (simp add: iloc_inside)
  have lt: "nat (max 0 (stop - window_size)) < nat stop"
    using assms by linarith
  have len: "length (take (nat stop) df_smooth) = nat stop"
    using assms by (simp add: min_absorb2)
  have "last (drop (nat (max 0 (stop - window_size))) (take (nat stop) df_smooth))
          = last (take (nat stop) df_smooth)"
    using lt len by (intro last_drop) simp
  also have "\<dots> = take (nat stop) df_smooth ! (nat stop - 1)"
    using assms len by (subst last_conv_nth) auto
  also have "\<dots> = df_smooth ! (nat stop - 1)"
    using assms by (intro nth_take) simp
  also have "nat stop - 1 = nat (stop - 1)"
    using assms by simp
  finally show ?thesis by (simp add: eq)
qed

text \<open>
  C3: the claim is that the candidate point is the last element of the window the
  oracle evaluates.  The code at a concrete trial: five rows with the timestamps
  \<open>0, ..., 4\<close>, window size 2, candidate timestamp 3.  The candidate is located at
  position 3, the window is rows 1 and 2, and an oracle that flags exactly the candidate
  whenever it sees it yields the verdict \<open>False\<close>, since the candidate never reaches it.
\<close>

theorem candidate_row_outside_window:
  "test_case_index [(0, 1), (1, 2), (2, 3), (3, 4), (4, 5)] 3 = Inr 3
   \<and> df_win [(0, 1), (1, 2), (2, 3), (3, 4), (4, 5)] 2 3 = [(1, 2), (2, 3)]
   \<and> trial_online (\<lambda>w. Inr (filter (\<lambda>row. fst row = 3) w)) (10, 12)
        [(0, 1), (1, 2), (2, 3), (3, 4), (4, 5)] 2 3 = Inr (False, 2)"
  by (simp add: df_win_def iloc_def trial_online_def detect_ts_online_def Let_def)

section \<open>Properties of the windowed detector\<close>

text \<open>
  C4, as the specification states it: on a \<open>ValueError\<close> of the oracle the detector
  reports no anomaly, records the time elapsed up to the failure and does not raise.
  With the oracle failing two seconds after the start, \<open>eval\<close> returns \<open>-1\<close> as the run
  time, not 2, and \<open>detect_ts_online\<close> lets the error through.
\<close>

theorem elapsed_time_on_failure_refuted:
  "eval (\<lambda>w. Inl ValueError) (10, 12) [(0, 1), (1, 2), (2, 3)] 2 1 = Inr (False, - 1)
   \<and> (- 1 :: real) \<noteq> 12 - 10
   \<and> detect_ts_online (\<lambda>w. Inl ValueError) (10, 12) [(0, 1), (1, 2), (2, 3)] 2 1
       = Inl ValueError"
  by (simp add: eval_def detect_ts_online_def Let_def)

text \<open>
  C4, amended: if the oracle raises \<open>ValueError\<close> on the current window, \<open>eval\<close>
  catches it and returns \<open>is_anomaly = False\<close> together with the run time \<open>-1\<close>, the
  value set before the \<open>try\<close>; no elapsed time is recorded and nothing is raised.
\<close>

theorem eval_catches_ValueError:
  "detect_ts (df_win df_smooth window_size stop) = Inl ValueError \<Longrightarrow>
     eval detect_ts clock df_smooth window_size stop = Inr (False, - 1)"
  by (simp add: eval_def Let_def)

theorem eval_catches_ValueError_witness:
  "(\<lambda>w :: frame. if length w < 4 then Inl ValueError else Inr [])
      (df_win [(0, 1), (1, 2), (2, 3)] 2 1) = Inl ValueError
   \<and> eval (\<lambda>w. if length w < 4 then Inl ValueError else Inr []) (10, 12)
        [(0, 1), (1, 2), (2, 3)] 2 1 = Inr (False, - 1)"
  using eval_catches_ValueError
          [of "\<lambda>w. if length w < 4 then Inl ValueError else Inr []"
              "[(0, 1), (1, 2), (2, 3)]" 2 1 "(10, 12)"]
  by (simp add: df_win_def iloc_def)

text \<open>
  When one list of keys is a subsequence of another and the longer list is free of
  repetitions or in ascending order, the last key of the longer list occurs in the
  shorter one exactly if it is its last key.
\<close>

lemma subseq_last:
  assumes "subseq ys xs" and "distinct xs" and "ys \<noteq> []"
  shows "last xs \<in> set ys \<longleftrightarrow> last ys = last xs"
  using assms
proof (induction rule: list_emb.induct)
  case (list_emb_Nil ys)
  then show ?case by simp
next
  case (list_emb_Cons xs ys y)
  then have "ys \<noteq> []" by auto
  with list_emb_Cons show ?case by simp
next
  case (list_emb_Cons2 x y xs ys)
  show ?case
  proof (cases "ys = []")
    case True
    with list_emb_Cons2 show ?thesis by auto
  next
    case False
    then have l: "last (y # ys) = last ys" by simp
    have "last ys \<in> set ys" using False by simp
    then have neq: "last ys \<noteq> x" using list_emb_Cons2 by auto
    show ?thesis
    proof (cases "xs = []")
      case True
      then show ?thesis using neq l by auto
    next
      case xs: False
      then show ?thesis using list_emb_Cons2 neq l by auto
    qed
  qed
qed

lemma sorted_le_last:
  fixes xs :: "'a :: linorder list"
  assumes "sorted xs" and "x \<in> set xs"
  shows "x \<le> last xs"
proof -
  from assms(2) obtain i where i: "i < length xs" "xs ! i = x"
    by (auto simp: in_set_conv_nth)
  then have ne: "xs \<noteq> []" by auto
  have "xs ! i \<le> xs ! (length xs - 1)"
    using assms(1) i by (intro sorted_nth_mono) auto
  then show ?thesis using i ne by (simp add: last_conv_nth)
qed

lemma subseq_set_subset:
  assumes "subseq ys xs"
  shows "set ys \<subseteq> set xs"
  using assms by (induction rule: list_emb.induct) auto

lemma subseq_sorted:
  fixes xs :: "'a :: linorder list"
  assumes "subseq ys xs" and "sorted xs"
  shows "sorted ys"
  using assms
proof (induction rule: list_emb.induct)
  case (list_emb_Nil ys)
  then show ?case by simp
next
  case (list_emb_Cons xs ys y)
  then show ?case by simp
next
  case (list_emb_Cons2 x y xs ys)
  then have "set xs \<subseteq> set ys" by (intro subseq_set_subset)
  with list_emb_Cons2 show ?case by auto
qed

lemma subseq_last_sorted:
  fixes xs :: "'a :: linorder list"
  assumes "subseq ys xs" and "sorted xs" and "ys \<noteq> []"
  shows "last xs \<in> set ys \<longleftrightarrow> last ys = last xs"
proof
  assume "last ys = last xs"
  then show "last xs \<in> set ys" using assms(3) by (metis last_in_set)
next
  assume in_ys: "last xs \<in> set ys"
  have "sorted ys" using assms(1,2) by (rule subseq_sorted)
  then have "last xs \<le> last ys" using in_ys by (rule sorted_le_last)
  moreover have "last ys \<in> set xs"
    using subseq_set_subset [OF assms(1)] assms(3) by auto
  then have "last ys \<le> last xs" using assms(2) by (intro sorted_le_last)
  ultimately show "last ys = last xs" by simp
qed

text \<open>
  C5: the verdict is \<open>True\<close> exactly if the timestamps flagged by the oracle on the
  window contain the timestamp of the window's last row; flags on other rows alone give
  \<open>False\<close>.  This holds for \<open>detect_ts_online\<close> and for \<open>eval\<close> whenever the oracle
  returns, under the contract of the oracle and of the data: the rows of
  \<open>results['anoms']\<close> are flagged rows of the window in the window's order, and the
  timestamps of the window are in chronological order or free of repetitions.
\<close>

theorem verdict_iff_last_row_flagged:
  assumes "detect_ts (df_win df_smooth window_size stop) = Inr anoms"
    and "subseq (map fst anoms) (map fst (df_win df_smooth window_size stop))"
    and "sorted (map fst (df_win df_smooth window_size stop))
         \<or> distinct (map fst (df_win df_smooth window_size stop))"
  shows "detect_ts_online detect_ts clock df_smooth window_size stop
           = Inr (df_win df_smooth window_size stop \<noteq> []
                  \<and> fst (last (df_win df_smooth window_size stop)) \<in> fst ` set anoms,
                  snd clock - fst clock)
       \<and> eval detect_ts clock df_smooth window_size stop
           = Inr (df_win df_smooth window_size stop \<noteq> []
                  \<and> fst (last (df_win df_smooth window_size stop)) \<in> fst ` set anoms,
                  snd clock - fst clock)"
proof (cases "anoms = []")
  case True
  then show ?thesis using assms(1) by (simp add: detect_ts_online_def eval_def Let_def)
next
  case False
  then have win: "df_win df_smooth window_size stop \<noteq> []"
    using assms(2) by auto
  have ne: "map fst anoms \<noteq> []" using False by simp
  have "last (map fst (df_win df_smooth window_size stop)) \<in> set (map fst anoms)
          \<longleftrightarrow> last (map fst anoms) = last (map fst (df_win df_smooth window_size stop))"
    using assms(3)
  proof
    assume "sorted (map fst (df_win df_smooth window_size stop))"
    with assms(2) show ?thesis using ne by (rule subseq_last_sorted)
  next
    assume "distinct (map fst (df_win df_smooth window_size stop))"
    with assms(2) show ?thesis using ne by (rule subseq_last)
  qed
  then have "fst (last (df_win df_smooth window_size stop)) \<in> fst ` set anoms
          \<longleftrightarrow> fst (last (df_win df_smooth window_size stop)) = fst (last anoms)"
    using False win by (auto simp: last_map)
  then show ?thesis
    using assms(1) False win by (simp add: detect_ts_online_def eval_def Let_def)
qed

theorem verdict_iff_last_row_flagged_witness:
  "(\<lambda>w :: frame. Inr (filter (\<lambda>row. 4 < snd row) w))
       (df_win [(0, 1), (1, 2), (2, 5), (3, 4), (4, 5)] 3 3) = Inr [(2, 5)]
   \<and> subseq (map fst [(2 :: int, 5 :: real)])
        (map fst (df_win [(0, 1), (1, 2), (2, 5), (3, 4), (4, 5)] 3 3))
   \<and> (sorted (map fst (df_win [(0, 1), (1, 2), (2, 5), (3, 4), (4, 5)] 3 3))
      \<or> distinct (map fst (df_win [(0, 1), (1, 2), (2, 5), (3, 4), (4, 5)] 3 3)))
   \<and> detect_ts_online (\<lambda>w. Inr (filter (\<lambda>row. 4 < snd row) w)) (10, 12)
        [(0, 1), (1, 2), (2, 5), (3, 4), (4, 5)] 3 3 = Inr (True, 2)
   \<and> eval (\<lambda>w. Inr (filter (\<lambda>row. 4 < snd row) w)) (10, 12)
        [(0, 1), (1, 2), (2, 5), (3, 4), (4, 5)] 3 3 = Inr (True, 2)"
proof -
  have win: "df_win [(0, 1), (1, 2), (2, 5), (3, 4), (4, 5)] 3 3 = [(0, 1), (1, 2), (2, 5)]"
    by (simp add: df_win_def iloc_def)
  have h1: "(\<lambda>w :: frame. Inr (filter (\<lambda>row. 4 < snd row) w))
       (df_win [(0, 1), (1, 2), (2, 5), (3, 4), (4, 5)] 3 3) = Inr [(2, 5)]"
    by (simp add: win)
  have h2: "subseq (map fst [(2 :: int, 5 :: real)])
        (map fst (df_win [(0, 1), (1, 2), (2, 5), (3, 4), (4, 5)] 3 3))"
    by (simp add: win)
  have h3: "sorted (map fst (df_win [(0, 1), (1, 2), (2, 5), (3, 4), (4, 5)] 3 3))
      \<or> distinct (map fst (df_win [(0, 1), (1, 2), (2, 5), (3, 4), (4, 5)] 3 3))"
    by (simp add: win)
  show ?thesis
    using verdict_iff_last_row_flagged
            [where detect_ts = "\<lambda>w. Inr (filter (\<lambda>row. 4 < snd row) w)"
               and df_smooth = "[(0, 1), (1, 2), (2, 5), (3, 4), (4, 5)]"
               and window_size = 3 and stop = 3 and anoms = "[(2, 5)]" and clock = "(10, 12)"]
          h1 h2 h3
    by (simp add: win)
qed

section \<open>Properties of the resampling loop of \<open>sample_run\<close>\<close>

text \<open>
  When the series has anomaly timestamps and all of them lie before the usable range,
  no rearrangement helps: the loop gives up once the counter has passed 100 and
  \<open>sample_run\<close> returns \<open>(0.0, 9999.0)\<close>.
\<close>

lemma resample_gives_up:
  assumes "anoms_timestamps \<noteq> []"
    and "\<forall>a \<in> set anoms_timestamps. a < t0"
    and "\<forall>k xs. set (shuffle k xs) = set xs"
  shows "resample shuffle (t0 # ts) anoms_timestamps counter = Inr (Return (0, 9999))"
  using assms
proof (induction shuffle "t0 # ts" anoms_timestamps counter rule: resample.induct)
  case (1 shuffle anoms_timestamps counter)
  then obtain a rest where a: "anoms_timestamps = a # rest"
    by (cases anoms_timestamps) auto
  have lt: "a < t0" using 1 a by simp
  have perm: "set (shuffle (Suc counter) anoms_timestamps) = set anoms_timestamps"
    using "1.prems"(3) by blast
  show ?case
  proof (cases "counter > 100")
    case True
    then show ?thesis using a lt by (subst resample.simps) simp
  next
    case False
    have "a \<in> set (shuffle (Suc counter) anoms_timestamps)"
      unfolding perm using a by simp
    then have ne: "shuffle (Suc counter) anoms_timestamps \<noteq> []"
      by auto
    have all: "\<forall>a \<in> set (shuffle (Suc counter) anoms_timestamps). a < t0"
      unfolding perm using 1 by simp
    have "resample shuffle (t0 # ts) (shuffle (Suc counter) anoms_timestamps) (counter + 1)
            = Inr (Return (0, 9999))"
      using "1.hyps" [OF a refl lt False ne all "1.prems"(3)] .
    then show ?thesis using a lt False by (subst resample.simps) simp
  qed
qed

text \<open>
  C8: the claim is that a trial whose series has no qualifying anomaly timestamp ends
  with the pair \<open>(0.0, 9999.0)\<close> and never raises.  The code at a series without any
  anomaly (usable timestamps \<open>5, 6, 7\<close>, no anomaly timestamp): \<open>anoms_timestamps[0]\<close>
  raises \<open>IndexError\<close> before the counter is looked at.  A series whose anomalies
  \<open>1, 2\<close> all lie before the usable range does end with the pair.
\<close>

theorem no_anomaly_raises_IndexError:
  "anomaly_branch (\<lambda>k. rev) [5, 6, 7] [] = Inl IndexError
   \<and> anomaly_branch (\<lambda>k. rev) [5, 6, 7] [1, 2] = Inr (Return (0, 9999))"
  by (simp add: anomaly_branch_def resample_gives_up)

section \<open>Properties of the running average\<close>

text \<open>The array that \<open>run_avg\<close> fills holds the recurrence \<open>online\<close>, cell by cell.\<close>

lemma fold_run_avg:
  assumes "1 \<le> k" and "k \<le> length ts"
  shows "length (fold (\<lambda>r rm_o.
                   let curr_com = min com (real r)
                   in rm_o[r := rm_o ! (r - 1) + (ts ! r - rm_o ! (r - 1)) / (curr_com + 1)])
                 [1..<k] ((replicate (length ts) 0)[0 := ts ! 0])) = length ts
       \<and> (\<forall>j<k. fold (\<lambda>r rm_o.
                   let curr_com = min com (real r)
                   in rm_o[r := rm_o ! (r - 1) + (ts ! r - rm_o ! (r - 1)) / (curr_com + 1)])
                 [1..<k] ((replicate (length ts) 0)[0 := ts ! 0]) ! j = online com ts j)"
  using assms
proof (induction k)
  case 0
  then show ?case by simp
next
  case (Suc k)
  show ?case
  proof (cases "k = 0")
    case True
    have "0 < length (replicate (length ts) (0 :: real))"
      using Suc.prems by (cases ts) simp_all
    then have "(replicate (length ts) (0 :: real))[0 := ts ! 0] ! 0 = ts ! 0"
      by (rule nth_list_update_eq)
    then show ?thesis using True by simp
  next
    case False
    define step where "step = (\<lambda>r rm_o.
                   let curr_com = min com (real r)
                   in rm_o[r := rm_o ! (r - 1) + (ts ! r - rm_o ! (r - 1)) / (curr_com + 1)])"
    define arr where "arr = fold step [1..<k] ((replicate (length ts) 0)[0 := ts ! 0])"
    from False obtain k' where k': "k = Suc k'" by (cases k) auto
    have ih: "length arr = length ts" "\<forall>j<k. arr ! j = online com ts j"
      using Suc False unfolding arr_def step_def by simp_all
    have upt: "[1..<Suc k] = [1..<k] @ [k]"
      using False by simp
    have next_arr: "fold step [1..<Suc k] ((replicate (length ts) 0)[0 := ts ! 0]) = step k arr"
      unfolding upt arr_def by simp
    have len: "length (step k arr) = length ts"
      using ih by (simp add: step_def Let_def)
    have nth: "step k arr ! j = online com ts j" if "j < Suc k" for j
    proof (cases "j = k")
      case True
      have "step k arr ! k = arr ! k' + (ts ! k - arr ! k') / (min com (real k) + 1)"
        using ih Suc.prems k' by (simp add: step_def Let_def)
      also have "arr ! k' = online com ts k'"
        using ih k' by simp
      finally show ?thesis using True k' by simp
    next
      case False
      then have "j < k" using that by simp
      then show ?thesis using ih by (simp add: step_def Let_def)
    qed
    show ?thesis
      using len nth next_arr unfolding step_def by simp
  qed
qed

lemma run_avg_online:
  assumes "ts \<noteq> []"
  shows "\<exists>out. run_avg ts com = Inr out \<and> length out = length ts
           \<and> (\<forall>j<length ts. out ! j = online com ts j)"
proof -
  have "1 \<le> length ts" using assms by (cases ts) auto
  from fold_run_avg [OF this le_refl, of com] show ?thesis
    using assms by (simp add: run_avg_def)
qed

text \<open>
  C7: for a non-empty input and a centre of mass \<open>c \<ge> 0\<close>, \<open>run_avg\<close> returns an array
  of the input's length with \<open>output[0] = value[0]\<close> and, for every \<open>r \<ge> 1\<close>,
  \<open>output[r] = output[r-1] + (value[r] - output[r-1]) / (min(c, r) + 1)\<close>; with
  \<open>c = 1\<close> it maps \<open>[0.0, 10.0, 0.0]\<close> to \<open>[0.0, 5.0, 2.5]\<close> (scenario B).
\<close>

theorem run_avg_recurrence:
  "(ts \<noteq> [] \<and> 0 \<le> com \<longrightarrow>
      (\<exists>out. run_avg ts com = Inr out \<and> length out = length ts \<and> out ! 0 = ts ! 0
         \<and> (\<forall>r. 1 \<le> r \<and> r < length ts \<longrightarrow>
               out ! r = out ! (r - 1) + (ts ! r - out ! (r - 1)) / (min com (real r) + 1))))
   \<and> run_avg [0, 10, 0] 1 = Inr [0, 5, 2.5]"
proof (intro conjI impI)
  assume h: "ts \<noteq> [] \<and> 0 \<le> com"
  then obtain out where out: "run_avg ts com = Inr out" "length out = length ts"
      "\<forall>j<length ts. out ! j = online com ts j"
    using run_avg_online [of ts com] by blast
  have "out ! r = out ! (r - 1) + (ts ! r - out ! (r - 1)) / (min com (real r) + 1)"
    if "1 \<le> r \<and> r < length ts" for r
  proof -
    from that obtain r' where r': "r = Suc r'" by (cases r) auto
    then show ?thesis using out(3) that by simp
  qed
  moreover have "out ! 0 = ts ! 0" using out(3) h by simp
  ultimately show "\<exists>out. run_avg ts com = Inr out \<and> length out = length ts \<and> out ! 0 = ts ! 0
         \<and> (\<forall>r. 1 \<le> r \<and> r < length ts \<longrightarrow>
               out ! r = out ! (r - 1) + (ts ! r - out ! (r - 1)) / (min com (real r) + 1))"
    using out(1,2) by blast
next
  show "run_avg [0, 10, 0] 1 = Inr [0, 5, 2.5]"
    by (simp add: run_avg_def Let_def upt_rec)
qed

theorem run_avg_recurrence_witness:
  "[4, 8, 6] \<noteq> ([] :: real list) \<and> (0 :: real) \<le> 2 \<and>
      (\<exists>out. run_avg [4, 8, 6] 2 = Inr out \<and> length out = length [4, 8, 6 :: real]
         \<and> out ! 0 = [4, 8, 6] ! 0
         \<and> (\<forall>r. 1 \<le> r \<and> r < length [4, 8, 6 :: real] \<longrightarrow>
               out ! r = out ! (r - 1) + ([4, 8, 6] ! r - out ! (r - 1)) / (min 2 (real r) + 1)))"
  using run_avg_recurrence [of "[4, 8, 6]" 2] by simp


section \<open>Online and batch running averages compared\<close>

text \<open>
  Numerator and denominator of the batch mean obey one-step recurrences, and the
  denominator is a geometric sum.
\<close>

lemma upt_Suc_shift: "[0..<Suc n] = 0 # map Suc [0..<n]"
  by (simp add: upt_conv_Cons map_Suc_upt del: upt_Suc)

lemma ewm_den_0: "ewm_den b 0 = 1"
  by (simp add: ewm_den_def)

lemma ewm_den_Suc: "ewm_den b (Suc t) = 1 + b * ewm_den b t"
proof -
  have "ewm_den b (Suc t) = (\<Sum>i\<leftarrow>0 # map Suc [0..<Suc t]. b ^ i)"
    unfolding ewm_den_def by (subst upt_Suc_shift) (rule refl)
  also have "\<dots> = 1 + (\<Sum>i\<leftarrow>[0..<Suc t]. b * b ^ i)"
    by (simp add: comp_def del: upt_Suc)
  also have "(\<Sum>i\<leftarrow>[0..<Suc t]. b * b ^ i) = b * ewm_den b t"
    unfolding ewm_den_def by (rule sum_list_const_mult)
  finally show ?thesis .
qed

lemma ewm_num_0: "ewm_num b xs 0 = xs ! 0"
  by (simp add: ewm_num_def)

lemma ewm_num_Suc: "ewm_num b xs (Suc t) = xs ! Suc t + b * ewm_num b xs t"
proof -
  have "ewm_num b xs (Suc t) = (\<Sum>i\<leftarrow>0 # map Suc [0..<Suc t]. b ^ i * xs ! (Suc t - i))"
    unfolding ewm_num_def by (subst upt_Suc_shift) (rule refl)
  also have "\<dots> = xs ! Suc t + (\<Sum>i\<leftarrow>[0..<Suc t]. b * (b ^ i * xs ! (t - i)))"
    by (simp add: comp_def mult.assoc del: upt_Suc)
  also have "(\<Sum>i\<leftarrow>[0..<Suc t]. b * (b ^ i * xs ! (t - i))) = b * ewm_num b xs t"
    unfolding ewm_num_def by (rule sum_list_const_mult)
  finally show ?thesis .
qed

lemma ewm_den_ge_1: "0 \<le> b \<Longrightarrow> 1 \<le> ewm_den b t"
  by (induction t) (simp_all add: ewm_den_0 ewm_den_Suc)

lemma ewm_den_geometric: "(1 - b) * ewm_den b t = 1 - b ^ Suc t"
proof (induction t)
  case 0
  then show ?case by (simp add: ewm_den_0)
next
  case (Suc t)
  have "(1 - b) * ewm_den b (Suc t) = (1 - b) + b * ((1 - b) * ewm_den b t)"
    by (simp add: ewm_den_Suc algebra_simps)
  also have "\<dots> = 1 - b ^ Suc (Suc t)"
    unfolding Suc by (simp add: algebra_simps)
  finally show ?case .
qed

lemma ewm_mean_nth:
  "t < length xs \<Longrightarrow> ewm_mean com xs ! t
      = ewm_num (1 - 1 / (1 + com)) xs t / ewm_den (1 - 1 / (1 + com)) t"
  by (simp add: ewm_mean_def Let_def del: upt_Suc)

lemma batch_step:
  assumes "0 \<le> b"
  shows "ewm_num b xs (Suc t) / ewm_den b (Suc t)
       = ewm_num b xs t / ewm_den b t
         + (xs ! Suc t - ewm_num b xs t / ewm_den b t) / ewm_den b (Suc t)"
proof -
  have d: "ewm_den b t \<noteq> 0" and d': "ewm_den b (Suc t) \<noteq> 0"
    using ewm_den_ge_1 [OF assms, of t] ewm_den_ge_1 [OF assms, of "Suc t"] by auto
  have "ewm_num b xs t / ewm_den b t * (b * ewm_den b t) = b * ewm_num b xs t"
    using d by simp
  then have "ewm_num b xs t / ewm_den b t * ewm_den b (Suc t)
          = ewm_num b xs t / ewm_den b t + b * ewm_num b xs t"
    unfolding ewm_den_Suc by (simp only: distrib_left mult_1_right)
  moreover have "(ewm_num b xs t / ewm_den b t
         + (xs ! Suc t - ewm_num b xs t / ewm_den b t) / ewm_den b (Suc t)) * ewm_den b (Suc t)
        = ewm_num b xs t / ewm_den b t * ewm_den b (Suc t)
          + (xs ! Suc t - ewm_num b xs t / ewm_den b t)"
    using d' by (simp add: distrib_right)
  ultimately have "(ewm_num b xs t / ewm_den b t
         + (xs ! Suc t - ewm_num b xs t / ewm_den b t) / ewm_den b (Suc t)) * ewm_den b (Suc t)
        = ewm_num b xs (Suc t)"
    by (simp add: ewm_num_Suc)
  then show ?thesis using d' by (metis nonzero_mult_div_cancel_right)
qed

lemma convex_step:
  fixes a x d lo hi :: real
  assumes "lo \<le> a" "a \<le> hi" "lo \<le> x" "x \<le> hi" "1 \<le> d"
  shows "lo \<le> a + (x - a) / d \<and> a + (x - a) / d \<le> hi"
proof -
  define w where "w = 1 / d"
  have w: "0 \<le> w" "w \<le> 1" using assms by (simp_all add: w_def)
  have eq: "a + (x - a) / d = (1 - w) * a + w * x"
    by (simp add: w_def algebra_simps diff_divide_distrib)
  have "(1 - w) * lo + w * lo \<le> (1 - w) * a + w * x"
    using w assms by (intro add_mono mult_left_mono) simp_all
  moreover have "(1 - w) * a + w * x \<le> (1 - w) * hi + w * hi"
    using w assms by (intro add_mono mult_left_mono) simp_all
  ultimately show ?thesis by (simp add: eq algebra_simps)
qed

lemma online_in_range:
  assumes "0 \<le> com" and "\<forall>x \<in> set ts. lo \<le> x \<and> x \<le> hi" and "t < length ts"
  shows "lo \<le> online com ts t \<and> online com ts t \<le> hi"
  using assms(3)
proof (induction t)
  case 0
  then show ?case using assms(2) by simp
next
  case (Suc t)
  have x: "lo \<le> ts ! Suc t \<and> ts ! Suc t \<le> hi" using assms(2) Suc.prems by simp
  have d: "1 \<le> min com (real (Suc t)) + 1" using assms(1) by simp
  from Suc have ih: "lo \<le> online com ts t \<and> online com ts t \<le> hi" by simp
  show ?case using convex_step [of lo "online com ts t" hi "ts ! Suc t"] ih x d by simp
qed

lemma batch_in_range:
  assumes "0 \<le> b" and "\<forall>x \<in> set ts. lo \<le> x \<and> x \<le> hi" and "t < length ts"
  shows "lo \<le> ewm_num b ts t / ewm_den b t \<and> ewm_num b ts t / ewm_den b t \<le> hi"
  using assms(3)
proof (induction t)
  case 0
  then show ?case using assms(2) by (simp add: ewm_num_0 ewm_den_0)
next
  case (Suc t)
  have x: "lo \<le> ts ! Suc t \<and> ts ! Suc t \<le> hi" using assms(2) Suc.prems by simp
  from Suc have ih: "lo \<le> ewm_num b ts t / ewm_den b t \<and> ewm_num b ts t / ewm_den b t \<le> hi" by simp
  show ?case
    unfolding batch_step [OF assms(1)]
    using convex_step [of lo "ewm_num b ts t / ewm_den b t" hi "ts ! Suc t" "ewm_den b (Suc t)"]
      ih x ewm_den_ge_1 [OF assms(1)] by simp
qed

text \<open>
  Once the position has reached the centre of mass, the online gain is the constant
  \<open>1 / (com + 1)\<close> while the batch gain \<open>1 / ewm_den\<close> still moves towards it; the
  distance between the two averages shrinks by the factor \<open>com / (com + 1)\<close> per step,
  up to a term that decays geometrically itself.
\<close>

lemma decay_facts:
  fixes com :: real
  assumes "0 \<le> com"
  shows "0 \<le> 1 - 1 / (1 + com)" and "1 - 1 / (1 + com) \<le> 1"
    and "1 - 1 / (1 + com) = com / (com + 1)"
proof -
  have pos: "0 < 1 + com" using assms by simp
  show "1 - 1 / (1 + com) = com / (com + 1)"
    using pos by (simp add: field_simps)
  show "0 \<le> 1 - 1 / (1 + com)" using pos assms by simp
  show "1 - 1 / (1 + com) \<le> 1" using pos by simp
qed

lemma gain_gap:
  fixes b :: real
  assumes "0 \<le> b"
  shows "(1 - b) - 1 / ewm_den b t = - (b ^ Suc t / ewm_den b t)"
proof -
  have d: "ewm_den b t \<noteq> 0" using ewm_den_ge_1 [OF assms, of t] by auto
  have "(1 - b) - 1 / ewm_den b t = ((1 - b) * ewm_den b t - 1) / ewm_den b t"
    using d by (simp add: diff_divide_distrib)
  also have "\<dots> = - (b ^ Suc t / ewm_den b t)"
    unfolding ewm_den_geometric by simp
  finally show ?thesis .
qed

lemma error_step:
  assumes com: "0 \<le> com" and warm: "com \<le> real (Suc r)"
    and range: "\<forall>x \<in> set ts. lo \<le> x \<and> x \<le> hi" and r: "Suc r < length ts"
  defines "b \<equiv> 1 - 1 / (1 + com)"
  shows "\<bar>online com ts (Suc r) - ewm_num b ts (Suc r) / ewm_den b (Suc r)\<bar>
       \<le> b * \<bar>online com ts r - ewm_num b ts r / ewm_den b r\<bar> + b ^ Suc (Suc r) * (hi - lo)"
proof -
  define x where "x = ts ! Suc r"
  define av where "av = online com ts r"
  define y where "y = ewm_num b ts r / ewm_den b r"
  define D where "D = ewm_den b (Suc r)"
  have b0: "0 \<le> b" and b1: "b \<le> 1"
    unfolding b_def using decay_facts [OF com] by simp_all
  have D1: "1 \<le> D" unfolding D_def by (rule ewm_den_ge_1 [OF b0])
  have alpha: "1 / (com + 1) = 1 - b"
    unfolding b_def by (simp add: add.commute)
  have av': "online com ts (Suc r) = av + (1 - b) * (x - av)"
  proof -
    have "min com (real (Suc r)) = com" using warm by (simp add: min_def)
    then have "online com ts (Suc r) = av + (x - av) / (com + 1)"
      unfolding av_def x_def by simp
    also have "(x - av) / (com + 1) = (1 / (com + 1)) * (x - av)" by simp
    finally show ?thesis unfolding alpha .
  qed
  have y': "ewm_num b ts (Suc r) / ewm_den b (Suc r) = y + (1 / D) * (x - y)"
    unfolding y_def x_def D_def batch_step [OF b0] by simp
  have diff: "online com ts (Suc r) - ewm_num b ts (Suc r) / ewm_den b (Suc r)
        = b * (av - y) + ((1 - b) - 1 / D) * (x - y)"
    unfolding av' y' by (simp add: algebra_simps)
  have gap: "\<bar>(1 - b) - 1 / D\<bar> \<le> b ^ Suc (Suc r)"
  proof -
    have "\<bar>(1 - b) - 1 / D\<bar> = b ^ Suc (Suc r) / D"
      unfolding D_def gain_gap [OF b0] using b0 D1 [unfolded D_def] by simp
    also have "\<dots> \<le> b ^ Suc (Suc r) / 1"
      using D1 b0 by (intro divide_left_mono) simp_all
    finally show ?thesis by simp
  qed
  have xr: "lo \<le> x \<and> x \<le> hi" unfolding x_def using range r by simp
  have yr: "lo \<le> y \<and> y \<le> hi"
    unfolding y_def using batch_in_range [OF b0 range, of r] r by simp
  have xy: "\<bar>x - y\<bar> \<le> hi - lo" using xr yr by linarith
  have "\<bar>b * (av - y) + ((1 - b) - 1 / D) * (x - y)\<bar>
          \<le> \<bar>b * (av - y)\<bar> + \<bar>((1 - b) - 1 / D) * (x - y)\<bar>"
    by (rule abs_triangle_ineq)
  also have "\<bar>b * (av - y)\<bar> = b * \<bar>av - y\<bar>"
    using b0 by (simp add: abs_mult)
  also have "\<bar>((1 - b) - 1 / D) * (x - y)\<bar> \<le> b ^ Suc (Suc r) * (hi - lo)"
    unfolding abs_mult using gap xy by (intro mult_mono) simp_all
  finally show ?thesis
    unfolding diff av_def y_def by simp
qed

lemma discrepancy_bound:
  assumes com: "0 \<le> com" and warm: "com \<le> real m"
    and range: "\<forall>x \<in> set ts. lo \<le> x \<and> x \<le> hi" and len: "m + k < length ts"
  defines "b \<equiv> 1 - 1 / (1 + com)"
  shows "\<bar>online com ts (m + k) - ewm_num b ts (m + k) / ewm_den b (m + k)\<bar>
       \<le> (hi - lo) * real (k + 1) * b ^ k"
  using len
proof (induction k)
  case 0
  have b0: "0 \<le> b" unfolding b_def using decay_facts [OF com] by simp
  have "lo \<le> online com ts m \<and> online com ts m \<le> hi"
    using online_in_range [OF com range, of m] 0 by simp
  moreover have "lo \<le> ewm_num b ts m / ewm_den b m \<and> ewm_num b ts m / ewm_den b m \<le> hi"
    using batch_in_range [OF b0 range, of m] 0 by simp
  ultimately show ?case by simp linarith
next
  case (Suc k)
  have b0: "0 \<le> b" and b1: "b \<le> 1"
    unfolding b_def using decay_facts [OF com] by simp_all
  define e where "e = \<bar>online com ts (m + k) - ewm_num b ts (m + k) / ewm_den b (m + k)\<bar>"
  have ih: "e \<le> (hi - lo) * real (k + 1) * b ^ k"
    unfolding e_def using Suc by simp
  have w: "0 \<le> hi - lo"
  proof -
    have "ts \<noteq> []" using Suc.prems by (cases ts) simp_all
    then have "ts ! 0 \<in> set ts" by (intro nth_mem) simp
    then show ?thesis using range by fastforce
  qed
  have warm': "com \<le> real (Suc (m + k))" using warm by simp
  have "\<bar>online com ts (Suc (m + k)) - ewm_num b ts (Suc (m + k)) / ewm_den b (Suc (m + k))\<bar>
        \<le> b * e + b ^ Suc (Suc (m + k)) * (hi - lo)"
    unfolding e_def b_def using error_step [OF com warm' range] Suc.prems by simp
  also have "b * e \<le> b * ((hi - lo) * real (k + 1) * b ^ k)"
    using ih b0 by (rule mult_left_mono)
  also have "b ^ Suc (Suc (m + k)) * (hi - lo) \<le> b ^ Suc k * (hi - lo)"
  proof -
    have "b ^ Suc (Suc (m + k)) = b ^ Suc m * b ^ Suc k"
      by (simp add: power_add [symmetric])
    also have "\<dots> \<le> 1 * b ^ Suc k"
      using b0 b1 by (intro mult_right_mono power_le_one) simp_all
    finally have "b ^ Suc (Suc (m + k)) \<le> b ^ Suc k" by simp
    then show ?thesis using w by (rule mult_right_mono)
  qed
  also have "b * ((hi - lo) * real (k + 1) * b ^ k) + b ^ Suc k * (hi - lo)
        = (hi - lo) * real (Suc k + 1) * b ^ Suc k"
    by (simp add: algebra_simps)
  finally show ?case by simp
qed

text \<open>
  C1, as the specification states it: at every position beyond the first the online
  sequence equals the batch exponential-weighted mean (within a relative tolerance of
  \<open>10\<^sup>-\<^sup>9\<close>).  With centre of mass 1 and the input \<open>[0, 10, 0]\<close> the online value
  at position 1 is 5, the batch value is \<open>20/3\<close>: they differ by a quarter of the batch
  value.
\<close>

theorem online_batch_parity_refuted:
  "run_avg [0, 10, 0] 1 = Inr [0, 5, 5 / 2]
   \<and> ewm_mean 1 [0, 10, 0] = [0, 20 / 3, 20 / 7]
   \<and> \<bar>(5 :: real) - 20 / 3\<bar> > (1 / 10 ^ 9) * \<bar>20 / 3\<bar>"
  by (simp add: run_avg_def ewm_mean_def ewm_num_def ewm_den_def Let_def upt_rec)

text \<open>
  C1, amended: for every non-empty input and every centre of mass \<open>c \<ge> 0\<close> the online
  sequence has the length of the batch sequence and equals it at position 0.  Beyond it
  the two differ in general, by a transient that dies out geometrically: for inputs
  within \<open>[lo, hi]\<close> and any warm-up position \<open>m \<ge> c\<close>, the distance at position
  \<open>m + k\<close> is at most \<open>(hi - lo) (k + 1) (c / (c + 1))\<^sup>k\<close>.  A given tolerance is
  therefore met after a warm-up that depends on \<open>c\<close>, not at every position beyond the
  first.
\<close>

theorem online_batch_discrepancy_bound:
  assumes "ts \<noteq> []" and "0 \<le> com"
  shows "\<exists>out. run_avg ts com = Inr out \<and> length out = length (ewm_mean com ts)
           \<and> out ! 0 = ewm_mean com ts ! 0
           \<and> (\<forall>m k lo hi.
                  com \<le> real m \<and> m + k < length ts \<and> (\<forall>x \<in> set ts. lo \<le> x \<and> x \<le> hi) \<longrightarrow>
                  \<bar>out ! (m + k) - ewm_mean com ts ! (m + k)\<bar>
                    \<le> (hi - lo) * real (k + 1) * (com / (com + 1)) ^ k)"
proof -
  obtain out where out: "run_avg ts com = Inr out" "length out = length ts"
      "\<forall>j<length ts. out ! j = online com ts j"
    using run_avg_online [OF assms(1), of com] by blast
  have len: "length out = length (ewm_mean com ts)"
    using out(2) by (simp add: ewm_mean_def Let_def)
  have "ewm_mean com ts ! 0 = ts ! 0"
    using assms(1) by (simp add: ewm_mean_nth ewm_num_0 ewm_den_0)
  then have first: "out ! 0 = ewm_mean com ts ! 0"
    using out(3) assms(1) by simp
  have bound: "\<bar>out ! (m + k) - ewm_mean com ts ! (m + k)\<bar>
                \<le> (hi - lo) * real (k + 1) * (com / (com + 1)) ^ k"
    if warm: "com \<le> real m" and idx: "m + k < length ts"
      and range: "\<forall>x \<in> set ts. lo \<le> x \<and> x \<le> hi"
    for m k lo hi
  proof -
    have "\<bar>out ! (m + k) - ewm_mean com ts ! (m + k)\<bar>
        = \<bar>online com ts (m + k) - ewm_num (1 - 1 / (1 + com)) ts (m + k)
              / ewm_den (1 - 1 / (1 + com)) (m + k)\<bar>"
      using out(3) idx by (simp add: ewm_mean_nth)
    also have "\<dots> \<le> (hi - lo) * real (k + 1) * (1 - 1 / (1 + com)) ^ k"
      using assms(2) warm range idx by (rule discrepancy_bound)
    finally show ?thesis
      unfolding decay_facts(3) [OF assms(2)] .
  qed
  show ?thesis
  proof (intro exI conjI allI impI)
    show "run_avg ts com = Inr out" by (rule out(1))
    show "length out = length (ewm_mean com ts)" by (rule len)
    show "out ! 0 = ewm_mean com ts ! 0" by (rule first)
    show "\<bar>out ! (m + k) - ewm_mean com ts ! (m + k)\<bar>
            \<le> (hi - lo) * real (k + 1) * (com / (com + 1)) ^ k"
      if "com \<le> real m \<and> m + k < length ts \<and> (\<forall>x \<in> set ts. lo \<le> x \<and> x \<le> hi)"
      for m k lo hi
      using that bound by blast
  qed
qed

text \<open>
  The theorem at two inputs.  For \<open>[0, 10, 0]\<close> with centre of mass 6, an input shorter
  than the warm-up, it gives the length and position 0.  For \<open>[0, 10, 0, 10, 0]\<close> with
  centre of mass 1 it gives, three steps after the warm-up position 1, a distance of at
  most \<open>10 * 4 * (1/2)\<^sup>3 = 5\<close>, half the width of the input's range.
\<close>

theorem online_batch_discrepancy_bound_witness:
  "(\<exists>out. run_avg [0, 10, 0] 6 = Inr out \<and> length out = length (ewm_mean 6 [0, 10, 0])
        \<and> out ! 0 = ewm_mean 6 [0, 10, 0] ! 0)
   \<and> (\<exists>out. run_avg [0, 10, 0, 10, 0] 1 = Inr out
        \<and> length out = length (ewm_mean 1 [0, 10, 0, 10, 0])
        \<and> out ! 0 = ewm_mean 1 [0, 10, 0, 10, 0] ! 0
        \<and> \<bar>out ! 4 - ewm_mean 1 [0, 10, 0, 10, 0] ! 4\<bar> \<le> 5)"
proof
  have ne: "[0, 10, 0 :: real] \<noteq> []" and c: "(0 :: real) \<le> 6" by simp_all
  from online_batch_discrepancy_bound [OF ne c]
  show "\<exists>out. run_avg [0, 10, 0] 6 = Inr out \<and> length out = length (ewm_mean 6 [0, 10, 0])
        \<and> out ! 0 = ewm_mean 6 [0, 10, 0] ! 0"
    by blast
next
  have ne: "[0, 10, 0, 10, 0 :: real] \<noteq> []" and c: "(0 :: real) \<le> 1" by simp_all
  from online_batch_discrepancy_bound [OF ne c] obtain out where
    out: "run_avg [0, 10, 0, 10, 0] 1 = Inr out"
      "length out = length (ewm_mean 1 [0, 10, 0, 10, 0])"
      "out ! 0 = ewm_mean 1 [0, 10, 0, 10, 0] ! 0"
    and bound: "\<forall>m k lo hi.
        1 \<le> real m \<and> m + k < length [0, 10, 0, 10, 0 :: real]
          \<and> (\<forall>x \<in> set [0, 10, 0, 10, 0 :: real]. lo \<le> x \<and> x \<le> hi) \<longrightarrow>
        \<bar>out ! (m + k) - ewm_mean 1 [0, 10, 0, 10, 0] ! (m + k)\<bar>
          \<le> (hi - lo) * real (k + 1) * (1 / (1 + 1)) ^ k"
    by blast
  have "1 \<le> real (1 :: nat) \<and> (1 :: nat) + 3 < length [0, 10, 0, 10, 0 :: real]
          \<and> (\<forall>x \<in> set [0, 10, 0, 10, 0 :: real]. 0 \<le> x \<and> x \<le> 10)"
    by simp
  with bound have "\<bar>out ! (1 + 3) - ewm_mean 1 [0, 10, 0, 10, 0] ! (1 + 3)\<bar>
          \<le> (10 - 0) * real ((3 :: nat) + 1) * (1 / (1 + 1)) ^ (3 :: nat)"
    by blast
  then have "\<bar>out ! 4 - ewm_mean 1 [0, 10, 0, 10, 0] ! 4\<bar> \<le> 5"
    by (simp add: power3_eq_cube)
  with out show "\<exists>out. run_avg [0, 10, 0, 10, 0] 1 = Inr out
        \<and> length out = length (ewm_mean 1 [0, 10, 0, 10, 0])
        \<and> out ! 0 = ewm_mean 1 [0, 10, 0, 10, 0] ! 0
        \<and> \<bar>out ! 4 - ewm_mean 1 [0, 10, 0, 10, 0] ! 4\<bar> \<le> 5"
    by blast
qed

end
